theory Spec2Isabelle
  imports Complex_Main "HOL-Library.Multiset"
begin

section \<open>Errors and numbers\<close>

text \<open>
  The exceptions the Python runtime, numpy and matplotlib raise on the paths of
  \<^verbatim>\<open>drawing.py\<close>. No method of \<^verbatim>\<open>Drawing\<close> has a \<^verbatim>\<open>try\<close>: an exception
  ends the call and reaches the caller as it is.
\<close>

datatype error = AttributeError | TypeError | ValueError | RuntimeError | NotImplementedError

text \<open>
  Coordinates and view extents are real numbers here: rounding and overflow of the
  64-bit floats are not modelled. What numpy computes where real arithmetic has no
  value is kept apart as \<open>NonFinite\<close> (a \<^verbatim>\<open>nan\<close> or an infinity): a division by
  zero and a negative base under the fractional exponent give it, with a warning and
  no exception, and every operation passes it on.
\<close>

datatype npfloat = Finite real | NonFinite

fun fdiv :: "npfloat \<Rightarrow> npfloat \<Rightarrow> npfloat" where
  "fdiv (Finite a) (Finite b) = (if b = 0 then NonFinite else Finite (a / b))"
| "fdiv _ _ = NonFinite"

fun fmul :: "npfloat \<Rightarrow> npfloat \<Rightarrow> npfloat" where
  "fmul (Finite a) (Finite b) = Finite (a * b)"
| "fmul _ _ = NonFinite"

text \<open>\<open>fpow b e\<close> is \<^verbatim>\<open>b ** e\<close> for the positive, non-integer exponent of the source.\<close>

fun fpow :: "npfloat \<Rightarrow> real \<Rightarrow> npfloat" where
  "fpow (Finite b) e = (if b < 0 then NonFinite else Finite (b powr e))"
| "fpow NonFinite e = NonFinite"

text \<open>
  \<^verbatim>\<open>np.max\<close> and \<^verbatim>\<open>np.min\<close> of a sequence: the reduction of an empty one raises
  \<^verbatim>\<open>ValueError\<close>.
\<close>

fun np_max :: "real list \<Rightarrow> error + real" where
  "np_max [] = Inl ValueError"
| "np_max (v # vs) = Inr (fold max vs v)"

fun np_min :: "real list \<Rightarrow> error + real" where
  "np_min [] = Inl ValueError"
| "np_min (v # vs) = Inr (fold min vs v)"

text \<open>
  \<^verbatim>\<open>np.max(a, axis=0)\<close> of an N x 2 array of vertices: the pair of the column
  maxima; the source reads its entry 1, the vertical one.
\<close>

definition np_max_axis0 :: "(real \<times> real) list \<Rightarrow> error + real \<times> real" where
  "np_max_axis0 a =
     (case np_max (map fst a) of
        Inl e \<Rightarrow> Inl e
      | Inr mx \<Rightarrow> (case np_max (map snd a) of Inl e \<Rightarrow> Inl e | Inr my \<Rightarrow> Inr (mx, my)))"

definition np_min_axis0 :: "(real \<times> real) list \<Rightarrow> error + real \<times> real" where
  "np_min_axis0 a =
     (case np_min (map fst a) of
        Inl e \<Rightarrow> Inl e
      | Inr mx \<Rightarrow> (case np_min (map snd a) of Inl e \<Rightarrow> Inl e | Inr my \<Rightarrow> Inr (mx, my)))"

section \<open>The collaborators: transforms, patches, axes\<close>

text \<open>
  A transform is kept as the expression that built it. \<open>Composite s t\<close> is
  matplotlib's \<^verbatim>\<open>s + t\<close>: apply \<open>s\<close>, then \<open>t\<close>. \<open>TransData a\<close> is the
  data-to-screen transform of the axes \<open>a\<close>, a reference that follows the axes' view.
\<close>

datatype transform =
    Affine2D_scale npfloat npfloat
  | Affine2D_translate real real
  | TransData nat
  | Composite transform transform

text \<open>\<^verbatim>\<open>Affine2D().translate(tx, ty)\<close>: adding \<^verbatim>\<open>None\<close> to a matrix entry is a \<^verbatim>\<open>TypeError\<close>.\<close>

definition translate :: "real option \<Rightarrow> real option \<Rightarrow> error + transform" where
  "translate tx ty =
     (case tx of
        None \<Rightarrow> Inl TypeError
      | Some a \<Rightarrow> (case ty of None \<Rightarrow> Inl TypeError | Some b \<Rightarrow> Inr (Affine2D_translate a b)))"

text \<open>
  A patch is an object shared by the Drawing and the axes, so patches and axes live in
  a store and are named by their identity. Of a patch: its untransformed vertices
  (\<^verbatim>\<open>get_xy()\<close>, an N x 2 array), its transform when one has been set, the figure
  and the axes it belongs to, and the axes whose list its \<^verbatim>\<open>remove()\<close> takes it
  from. Of an axes: \<^verbatim>\<open>viewLim.bounds\<close>, which is (x0, y0, width, height), the list of
  the patches added, and the figure the axes are in.
\<close>

record patch =
  get_xy :: "(real \<times> real) list"
  patch_transform :: "transform option"
  patch_figure :: "nat option"
  patch_axes :: "nat option"
  remove_method :: "nat option"

record axes =
  viewLim_bounds :: "real \<times> real \<times> real \<times> real"
  axes_patches :: "nat list"
  axes_figure :: nat

record world =
  patch_store :: "nat \<Rightarrow> patch"
  axes_store :: "nat \<Rightarrow> axes"

definition set_transform :: "nat \<Rightarrow> transform \<Rightarrow> world \<Rightarrow> world" where
  "set_transform p t w =
     w\<lparr>patch_store := (patch_store w)(p := (patch_store w p)\<lparr>patch_transform := Some t\<rparr>)\<rparr>"

text \<open>
  \<^verbatim>\<open>Artist.set_figure\<close>: nothing to do for a patch already in the figure;
  \<^verbatim>\<open>RuntimeError\<close> for a patch in another figure; otherwise the figure is recorded.
\<close>

definition set_figure :: "nat \<Rightarrow> nat \<Rightarrow> world \<Rightarrow> error option \<times> world" where
  "set_figure p fig w =
     (if patch_figure (patch_store w p) = Some fig then (None, w)
      else if patch_figure (patch_store w p) \<noteq> None then (Some RuntimeError, w)
      else (None,
            w\<lparr>patch_store := (patch_store w)(p := (patch_store w p)\<lparr>patch_figure := Some fig\<rparr>)\<rparr>))"

text \<open>
  \<^verbatim>\<open>Axes.add_patch\<close>, in the order of its steps: the patch is put in the axes'
  figure; a patch with no transform set gets the axes' own; a patch that belongs to
  other axes is refused with \<^verbatim>\<open>ValueError\<close>; then the patch is appended to the
  axes' list and its \<^verbatim>\<open>remove()\<close> is bound to that list.
\<close>

definition add_patch :: "nat \<Rightarrow> nat \<Rightarrow> world \<Rightarrow> error option \<times> world" where
  "add_patch a p w =
     (case set_figure p (axes_figure (axes_store w a)) w of
        (Some e, w0) \<Rightarrow> (Some e, w0)
      | (None, w0) \<Rightarrow>
          (let w1 = (if patch_transform (patch_store w0 p) = None
                     then set_transform p (TransData a) w0 else w0)
           in if patch_axes (patch_store w1 p) \<noteq> None \<and> patch_axes (patch_store w1 p) \<noteq> Some a
              then (Some ValueError, w1)
              else (None,
                    w1\<lparr>patch_store := (patch_store w1)
                          (p := (patch_store w1 p)\<lparr>patch_axes := Some a, remove_method := Some a\<rparr>),
                       axes_store := (axes_store w1)
                          (a := (axes_store w1 a)\<lparr>axes_patches := axes_patches (axes_store w1 a) @ [p]\<rparr>)\<rparr>)))"

text \<open>
  \<^verbatim>\<open>Artist.remove\<close>: \<^verbatim>\<open>NotImplementedError\<close> for a patch never added to an axes;
  otherwise \<^verbatim>\<open>list.remove\<close> on that axes' list, which deletes the first occurrence
  and raises \<^verbatim>\<open>ValueError\<close> when there is none; then the patch forgets its axes and
  its figure. What \<^verbatim>\<open>remove()\<close> is bound to stays.
\<close>

definition artist_remove :: "nat \<Rightarrow> world \<Rightarrow> error option \<times> world" where
  "artist_remove p w =
     (case remove_method (patch_store w p) of
        None \<Rightarrow> (Some NotImplementedError, w)
      | Some a \<Rightarrow>
          if p \<notin> set (axes_patches (axes_store w a)) then (Some ValueError, w)
          else (None,
                w\<lparr>axes_store := (axes_store w)
                      (a := (axes_store w a)\<lparr>axes_patches := remove1 p (axes_patches (axes_store w a))\<rparr>),
                   patch_store := (patch_store w)
                      (p := (patch_store w p)\<lparr>patch_axes := None, patch_figure := None\<rparr>)\<rparr>))"

section \<open>The Drawing\<close>

text \<open>
  The fields of \<^verbatim>\<open>self\<close>; \<^verbatim>\<open>None\<close> is \<open>None\<close>. The constructor stores the
  components and leaves the rest unset.
\<close>

record drawing =
  components :: "nat list"
  self_axes :: "nat option"
  self_x :: "real option"
  self_y :: "real option"

definition Drawing :: "nat list \<Rightarrow> drawing" where
  "Drawing cs = \<lparr>components = cs, self_axes = None, self_x = None, self_y = None\<rparr>"

text \<open>\<^verbatim>\<open>height\<close>: the loop fills \<^verbatim>\<open>top\<close> and \<^verbatim>\<open>bottom\<close> (here \<open>tops\<close>, \<open>bottoms\<close>), then the two reductions.\<close>

fun height_loop :: "world \<Rightarrow> nat list \<Rightarrow> real list \<Rightarrow> real list \<Rightarrow> error + real list \<times> real list" where
  "height_loop w [] tops bottoms = Inr (tops, bottoms)"
| "height_loop w (c # cs) tops bottoms =
     (case np_max_axis0 (get_xy (patch_store w c)) of
        Inl e \<Rightarrow> Inl e
      | Inr mx \<Rightarrow>
          (case np_min_axis0 (get_xy (patch_store w c)) of
             Inl e \<Rightarrow> Inl e
           | Inr mn \<Rightarrow> height_loop w cs (tops @ [snd mx]) (bottoms @ [snd mn])))"

definition height :: "drawing \<Rightarrow> world \<Rightarrow> error + real" where
  "height d w =
     (case height_loop w (components d) [] [] of
        Inl e \<Rightarrow> Inl e
      | Inr (tops, bottoms) \<Rightarrow>
          (case np_max tops of
             Inl e \<Rightarrow> Inl e
           | Inr t \<Rightarrow> (case np_min bottoms of Inl e \<Rightarrow> Inl e | Inr b \<Rightarrow> Inr (t - b))))"

text \<open>\<^verbatim>\<open>axesToDataScale\<close>: \<^verbatim>\<open>self.axes.viewLim.bounds[2:]\<close>; no axes, no attribute.\<close>

definition axesToDataScale :: "drawing \<Rightarrow> world \<Rightarrow> error + real \<times> real" where
  "axesToDataScale d w =
     (case self_axes d of
        None \<Rightarrow> Inl AttributeError
      | Some a \<Rightarrow> (case viewLim_bounds (axes_store w a) of (x0, y0, xScale, yScale) \<Rightarrow> Inr (xScale, yScale)))"

definition scaling :: "drawing \<Rightarrow> world \<Rightarrow> error + npfloat \<times> npfloat" where
  "scaling d w =
     (case axesToDataScale d w of
        Inl e \<Rightarrow> Inl e
      | Inr (xScale, yScale) \<Rightarrow>
          (case height d w of
             Inl e \<Rightarrow> Inl e
           | Inr h \<Rightarrow>
               (let heightFactor = fdiv (Finite h) (Finite yScale);
                    xScaling = fmul (Finite xScale) (fpow (fdiv heightFactor (Finite 0.2)) (3 / 4))
                in Inr (xScaling, Finite 1))))"

text \<open>
  \<^verbatim>\<open>update\<close>. The stored position is overwritten first; what follows can raise, and
  the Drawing and the store are returned as they are at that moment.
\<close>

fun update_loop :: "drawing \<Rightarrow> transform \<Rightarrow> transform \<Rightarrow> nat list \<Rightarrow> world \<Rightarrow> error option \<times> world" where
  "update_loop d scaling_t translation [] w = (None, w)"
| "update_loop d scaling_t translation (c # cs) w =
     (case self_axes d of
        None \<Rightarrow> (Some AttributeError, w)
      | Some a \<Rightarrow>
          update_loop d scaling_t translation cs
            (set_transform c (Composite (Composite scaling_t translation) (TransData a)) w))"

definition update :: "real option \<Rightarrow> real option \<Rightarrow> drawing \<times> world \<Rightarrow> error option \<times> drawing \<times> world" where
  "update x y s =
     (case s of (d, w) \<Rightarrow>
        (let d1 = (if x \<noteq> None then d\<lparr>self_x := x\<rparr> else d);
             d2 = (if y \<noteq> None then d1\<lparr>self_y := y\<rparr> else d1)
         in case scaling d2 w of
              Inl e \<Rightarrow> (Some e, d2, w)
            | Inr (xScaling, yScaling) \<Rightarrow>
                (case translate (self_x d2) (self_y d2) of
                   Inl e \<Rightarrow> (Some e, d2, w)
                 | Inr translation \<Rightarrow>
                     (case update_loop d2 (Affine2D_scale xScaling yScaling) translation (components d2) w of
                        (r, w') \<Rightarrow> (r, d2, w')))))"

text \<open>\<^verbatim>\<open>applyTo\<close>: record the axes and the position, update, then add every component.\<close>

fun applyTo_loop :: "drawing \<Rightarrow> nat list \<Rightarrow> world \<Rightarrow> error option \<times> world" where
  "applyTo_loop d [] w = (None, w)"
| "applyTo_loop d (c # cs) w =
     (case self_axes d of
        None \<Rightarrow> (Some AttributeError, w)
      | Some a \<Rightarrow>
          (case add_patch a c w of
             (Some e, w') \<Rightarrow> (Some e, w')
           | (None, w') \<Rightarrow> applyTo_loop d cs w'))"

definition applyTo :: "nat \<Rightarrow> real \<Rightarrow> real \<Rightarrow> drawing \<times> world \<Rightarrow> error option \<times> drawing \<times> world" where
  "applyTo a x y s =
     (case s of (d, w) \<Rightarrow>
        (case update None None (d\<lparr>self_axes := Some a, self_x := Some x, self_y := Some y\<rparr>, w) of
           (Some e, d', w') \<Rightarrow> (Some e, d', w')
         | (None, d', w') \<Rightarrow> (case applyTo_loop d' (components d') w' of (r, w'') \<Rightarrow> (r, d', w''))))"

text \<open>\<^verbatim>\<open>remove\<close>: every component's \<^verbatim>\<open>remove()\<close>, in order.\<close>

fun remove_loop :: "nat list \<Rightarrow> world \<Rightarrow> error option \<times> world" where
  "remove_loop [] w = (None, w)"
| "remove_loop (c # cs) w =
     (case artist_remove c w of
        (Some e, w') \<Rightarrow> (Some e, w')
      | (None, w') \<Rightarrow> remove_loop cs w')"

definition remove :: "drawing \<times> world \<Rightarrow> error option \<times> drawing \<times> world" where
  "remove s = (case s of (d, w) \<Rightarrow> (case remove_loop (components d) w of (r, w') \<Rightarrow> (r, d, w')))"

section \<open>The specification's formulas and the states the claims speak of\<close>

text \<open>
  The intrinsic height as the specification words it: the greatest of the components'
  vertical maxima minus the least of their vertical minima, over untransformed vertices.
\<close>

definition vertical_max :: "world \<Rightarrow> nat \<Rightarrow> real" where
  "vertical_max w c = Max (snd ` set (get_xy (patch_store w c)))"

definition vertical_min :: "world \<Rightarrow> nat \<Rightarrow> real" where
  "vertical_min w c = Min (snd ` set (get_xy (patch_store w c)))"

definition spec_height :: "drawing \<Rightarrow> world \<Rightarrow> real" where
  "spec_height d w =
     Max (vertical_max w ` set (components d)) - Min (vertical_min w ` set (components d))"

text \<open>
  The scale as the specification words it: heightFactor = intrinsicHeight / viewHeight,
  horizontal scale = viewWidth * (heightFactor / 0.2) ** (3/4).
\<close>

definition spec_horizontal_scale :: "real \<Rightarrow> real \<Rightarrow> real \<Rightarrow> npfloat" where
  "spec_horizontal_scale viewWidth viewHeight intrinsicHeight =
     fmul (Finite viewWidth)
       (fpow (fdiv (fdiv (Finite intrinsicHeight) (Finite viewHeight)) (Finite 0.2)) (3 / 4))"

text \<open>The transform the specification gives a component: scale, then translate, then the canvas.\<close>

definition spec_transform :: "npfloat \<Rightarrow> real \<Rightarrow> real \<Rightarrow> nat \<Rightarrow> transform" where
  "spec_transform sx px py a =
     Composite (Composite (Affine2D_scale sx (Finite 1)) (Affine2D_translate px py)) (TransData a)"

text \<open>Every component has a vertex: both reductions over its vertices have a value.\<close>

definition has_vertices :: "drawing \<Rightarrow> world \<Rightarrow> bool" where
  "has_vertices d w = (\<forall>c \<in> set (components d). get_xy (patch_store w c) \<noteq> [])"

text \<open>
  An attached Drawing: the state in which \<^verbatim>\<open>applyTo\<close> has returned. The axes and the
  position are set; the component list is not empty and every component has a vertex,
  or \<^verbatim>\<open>applyTo\<close> would have raised in its \<^verbatim>\<open>update\<close>.
\<close>

definition attached :: "drawing \<Rightarrow> world \<Rightarrow> bool" where
  "attached d w =
     (self_axes d \<noteq> None \<and> self_x d \<noteq> None \<and> self_y d \<noteq> None \<and>
      components d \<noteq> [] \<and> has_vertices d w)"

text \<open>
  The registration one \<^verbatim>\<open>applyTo\<close> leaves when the components were not on the canvas
  before (lemma \<open>applyTo_registered\<close>): each is bound to the Drawing's axes and stands
  in the axes' list as often as in the component list. A second \<^verbatim>\<open>applyTo\<close>, or a
  component added to the axes by other means, breaks it and leaves the Drawing attached.
\<close>

definition registered :: "drawing \<Rightarrow> world \<Rightarrow> nat \<Rightarrow> bool" where
  "registered d w a =
     (self_axes d = Some a \<and>
      (\<forall>c \<in> set (components d).
         remove_method (patch_store w c) = Some a \<and>
         count (mset (axes_patches (axes_store w a))) c = count (mset (components d)) c))"

text \<open>The store after a transform has been set on each patch of a list.\<close>

definition with_transform :: "transform \<Rightarrow> nat list \<Rightarrow> world \<Rightarrow> world" where
  "with_transform t cs w =
     w\<lparr>patch_store := (\<lambda>p. if p \<in> set cs then (patch_store w p)\<lparr>patch_transform := Some t\<rparr>
                             else patch_store w p)\<rparr>"

text \<open>
  The store after each patch of a list has been added to the axes \<open>a\<close>: a transform
  already set is kept, the patch is bound to the axes and their figure, and the list is
  appended. A patch can be added when it is in no other figure and belongs to no other
  axes.
\<close>

definition addable :: "nat \<Rightarrow> world \<Rightarrow> nat \<Rightarrow> bool" where
  "addable a w c =
     ((patch_figure (patch_store w c) = None \<or>
       patch_figure (patch_store w c) = Some (axes_figure (axes_store w a))) \<and>
      (patch_axes (patch_store w c) = None \<or> patch_axes (patch_store w c) = Some a))"

definition added :: "nat \<Rightarrow> nat list \<Rightarrow> world \<Rightarrow> world" where
  "added a cs w =
     w\<lparr>patch_store :=
         (\<lambda>p. if p \<in> set cs
              then (patch_store w p)
                     \<lparr>patch_transform :=
                        (case patch_transform (patch_store w p) of
                           None \<Rightarrow> Some (TransData a) | Some t \<Rightarrow> Some t),
                      patch_figure := Some (axes_figure (axes_store w a)),
                      patch_axes := Some a, remove_method := Some a\<rparr>
              else patch_store w p),
       axes_store :=
         (axes_store w)
           (a := (axes_store w a)\<lparr>axes_patches := axes_patches (axes_store w a) @ cs\<rparr>)\<rparr>"

subsection \<open>A concrete scene\<close>

text \<open>
  Two new patches, a vertical stroke from 0 down to -5 and a triangle inside that range,
  and axes in figure 0 whose view is 10 wide and 10 high with nothing added yet:
  patches 0 and 2.
  Every other patch has no vertex.
\<close>

definition new_patch :: "(real \<times> real) list \<Rightarrow> patch" where
  "new_patch vs =
     \<lparr>get_xy = vs, patch_transform = None, patch_figure = None, patch_axes = None,
      remove_method = None\<rparr>"

definition scene :: world where
  "scene =
     \<lparr>patch_store = (\<lambda>p. if p = 0 then new_patch [(0, 0), (0, -5)]
                          else if p = 2 then new_patch [(-1, -1), (1, -1), (0, -3)]
                          else new_patch []),
      axes_store = (\<lambda>a. \<lparr>viewLim_bounds = (0, 0, 10, 10), axes_patches = [], axes_figure = 0\<rparr>)\<rparr>"

text \<open>A Drawing of the two patches with the axes 0 and the position (3, 4) recorded.\<close>

definition placed :: drawing where
  "placed = \<lparr>components = [0, 2], self_axes = Some 0, self_x = Some 3, self_y = Some 4\<rparr>"

text \<open>The Drawing and the store after \<^verbatim>\<open>applyTo\<close> has been called twice on the same axes.\<close>

definition attached_twice :: "drawing \<times> world" where
  "attached_twice = snd (applyTo 0 3 4 (snd (applyTo 0 3 4 (Drawing [0, 2], scene))))"

section \<open>Reductions and the height\<close>

lemma np_max_Max: "vs \<noteq> [] \<Longrightarrow> np_max vs = Inr (Max (set vs))"
  by (cases vs) (simp_all add: Max.set_eq_fold [symmetric])

lemma np_min_Min: "vs \<noteq> [] \<Longrightarrow> np_min vs = Inr (Min (set vs))"
  by (cases vs) (simp_all add: Min.set_eq_fold [symmetric])

lemma np_max_axis0_Max:
  "a \<noteq> [] \<Longrightarrow> np_max_axis0 a = Inr (Max (fst ` set a), Max (snd ` set a))"
  by (simp add: np_max_axis0_def np_max_Max)

lemma np_min_axis0_Min:
  "a \<noteq> [] \<Longrightarrow> np_min_axis0 a = Inr (Min (fst ` set a), Min (snd ` set a))"
  by (simp add: np_min_axis0_def np_min_Min)

lemma height_loop_map:
  "\<forall>c \<in> set cs. get_xy (patch_store w c) \<noteq> [] \<Longrightarrow>
   height_loop w cs tops bottoms =
     Inr (tops @ map (vertical_max w) cs, bottoms @ map (vertical_min w) cs)"
proof (induction cs arbitrary: tops bottoms)
  case Nil
  show ?case by simp
next
  case (Cons c cs)
  from Cons.prems have c: "get_xy (patch_store w c) \<noteq> []"
    and cs: "\<forall>c \<in> set cs. get_xy (patch_store w c) \<noteq> []" by simp_all
  show ?case
    by (simp add: np_max_axis0_Max [OF c] np_min_axis0_Min [OF c] Cons.IH [OF cs]
        vertical_max_def vertical_min_def)
qed

lemma height_spec:
  assumes "components d \<noteq> []" and "has_vertices d w"
  shows "height d w = Inr (spec_height d w)"
proof -
  have l: "height_loop w (components d) [] [] =
      Inr (map (vertical_max w) (components d), map (vertical_min w) (components d))"
    using assms(2) by (simp add: has_vertices_def height_loop_map)
  show ?thesis
    using assms(1) by (simp add: height_def l np_max_Max np_min_Min spec_height_def)
qed

lemma height_loop_cong:
  "\<forall>c \<in> set cs. get_xy (patch_store w' c) = get_xy (patch_store w c) \<Longrightarrow>
   height_loop w' cs tops bottoms = height_loop w cs tops bottoms"
  by (induction cs arbitrary: tops bottoms) (simp_all split: sum.splits)

lemma height_cong:
  "components d' = components d \<Longrightarrow>
   \<forall>c \<in> set (components d). get_xy (patch_store w' c) = get_xy (patch_store w c) \<Longrightarrow>
   height d' w' = height d w"
  using height_loop_cong [of "components d" w' w "[]" "[]"] by (simp add: height_def)


lemma np_max_axis0_Nil: "np_max_axis0 [] = Inl ValueError"
  by (simp add: np_max_axis0_def)

lemma height_loop_Inr_D:
  "height_loop w cs tops bottoms = Inr r \<Longrightarrow> c \<in> set cs \<Longrightarrow> get_xy (patch_store w c) \<noteq> []"
proof (induction cs arbitrary: tops bottoms)
  case Nil
  then show ?case by simp
next
  case (Cons c' cs)
  show ?case
  proof (cases "get_xy (patch_store w c') = []")
    case True
    with Cons.prems(1) show ?thesis by (simp add: np_max_axis0_Nil)
  next
    case False
    with Cons.prems have "height_loop w cs (tops @ [vertical_max w c']) (bottoms @ [vertical_min w c']) = Inr r"
      by (simp add: np_max_axis0_Max np_min_axis0_Min vertical_max_def vertical_min_def)
    with Cons.IH Cons.prems(2) False show ?thesis by auto
  qed
qed

lemma height_Inr_D:
  assumes "height d w = Inr h"
  shows "components d \<noteq> []" and "has_vertices d w"
proof -
  from assms obtain r where r: "height_loop w (components d) [] [] = Inr r"
    by (auto simp: height_def split: sum.splits)
  then show "has_vertices d w"
    unfolding has_vertices_def using height_loop_Inr_D by blast
  show "components d \<noteq> []"
  proof
    assume "components d = []"
    with assms show False by (simp add: height_def)
  qed
qed

section \<open>The concrete scene\<close>

lemma scene_simps:
  "get_xy (patch_store scene 0) = [(0, 0), (0, -5)]"
  "get_xy (patch_store scene 2) = [(-1, -1), (1, -1), (0, -3)]"
  "viewLim_bounds (axes_store scene a) = (0, 0, 10, 10)"
  "axes_patches (axes_store scene a) = []"
  by (simp_all add: scene_def new_patch_def)

lemma scene_spec_height: "spec_height (Drawing [0, 2]) scene = 5"
  by (simp add: spec_height_def Drawing_def vertical_max_def vertical_min_def scene_simps)

section \<open>The update\<close>

lemma with_transform_simps:
  "get_xy (patch_store (with_transform t cs w) c) = get_xy (patch_store w c)"
  "patch_axes (patch_store (with_transform t cs w) c) = patch_axes (patch_store w c)"
  "patch_figure (patch_store (with_transform t cs w) c) = patch_figure (patch_store w c)"
  "remove_method (patch_store (with_transform t cs w) c) = remove_method (patch_store w c)"
  "axes_store (with_transform t cs w) = axes_store w"
  "patch_transform (patch_store (with_transform t cs w) c) =
     (if c \<in> set cs then Some t else patch_transform (patch_store w c))"
  by (simp_all add: with_transform_def)

lemma with_transform_Nil: "with_transform t [] w = w"
  by (simp add: with_transform_def)

lemma with_transform_Cons:
  "with_transform t cs (set_transform c t w) = with_transform t (c # cs) w"
  by (auto simp: with_transform_def set_transform_def fun_eq_iff)

lemma with_transform_idem:
  "with_transform t cs (with_transform t cs w) = with_transform t cs w"
  by (auto simp: with_transform_def fun_eq_iff)

lemma update_loop_with_transform:
  "self_axes d = Some a \<Longrightarrow>
   update_loop d s t cs w = (None, with_transform (Composite (Composite s t) (TransData a)) cs w)"
  by (induction cs arbitrary: w) (simp_all add: with_transform_Nil with_transform_Cons)

lemma has_vertices_cong:
  "components d' = components d \<Longrightarrow>
   \<forall>c \<in> set (components d). get_xy (patch_store w' c) = get_xy (patch_store w c) \<Longrightarrow>
   has_vertices d' w' = has_vertices d w"
  by (simp add: has_vertices_def)

lemma spec_height_cong:
  "components d' = components d \<Longrightarrow>
   \<forall>c \<in> set (components d). get_xy (patch_store w' c) = get_xy (patch_store w c) \<Longrightarrow>
   spec_height d' w' = spec_height d w"
  by (simp add: spec_height_def vertical_max_def vertical_min_def cong: image_cong)

lemma scaling_cong:
  assumes "components d' = components d" and "self_axes d' = self_axes d"
    and "\<forall>c \<in> set (components d). get_xy (patch_store w' c) = get_xy (patch_store w c)"
    and "\<forall>a. viewLim_bounds (axes_store w' a) = viewLim_bounds (axes_store w a)"
  shows "scaling d' w' = scaling d w"
proof -
  have h: "height d' w' = height d w"
    using assms(1,3) by (rule height_cong)
  have s: "axesToDataScale d' w' = axesToDataScale d w"
    using assms(2,4) by (simp add: axesToDataScale_def split: option.splits)
  show ?thesis
    unfolding scaling_def h s ..
qed

lemma scaling_spec:
  assumes "self_axes d = Some a" and "viewLim_bounds (axes_store w a) = (x0, y0, vw, vh)"
    and "components d \<noteq> []" and "has_vertices d w"
  shows "scaling d w = Inr (spec_horizontal_scale vw vh (spec_height d w), Finite 1)"
  using assms(1,2)
  by (simp add: scaling_def axesToDataScale_def height_spec [OF assms(3,4)]
      spec_horizontal_scale_def)

lemma scaling_Inr_D:
  assumes "scaling d w = Inr r"
  shows "self_axes d \<noteq> None" and "components d \<noteq> []" and "has_vertices d w"
proof -
  from assms obtain h where h: "height d w = Inr h"
    by (auto simp: scaling_def split: sum.splits prod.splits)
  from h show "components d \<noteq> []" and "has_vertices d w"
    by (rule height_Inr_D)+
  from assms show "self_axes d \<noteq> None"
    by (auto simp: scaling_def axesToDataScale_def split: sum.splits option.splits)
qed

lemma update_spec:
  assumes a: "self_axes d = Some a" and b: "viewLim_bounds (axes_store w a) = (x0, y0, vw, vh)"
    and c: "components d \<noteq> []" and v: "has_vertices d w"
    and px: "(if x \<noteq> None then x else self_x d) = Some px"
    and py: "(if y \<noteq> None then y else self_y d) = Some py"
  shows "update x y (d, w) =
           (None, d\<lparr>self_x := Some px, self_y := Some py\<rparr>,
            with_transform
              (spec_transform (spec_horizontal_scale vw vh (spec_height d w)) px py a)
              (components d) w)"
proof -
  define d2 where "d2 = d\<lparr>self_x := Some px, self_y := Some py\<rparr>"
  have d2: "(let d1 = (if x \<noteq> None then d\<lparr>self_x := x\<rparr> else d)
             in (if y \<noteq> None then d1\<lparr>self_y := y\<rparr> else d1)) = d2"
    using px py by (cases d; cases x; cases y) (simp_all add: d2_def)
  have s: "scaling d2 w = Inr (spec_horizontal_scale vw vh (spec_height d w), Finite 1)"
  proof -
    have "scaling d2 w = scaling d w"
      by (rule scaling_cong) (simp_all add: d2_def)
    with scaling_spec [OF a b c v] show ?thesis by simp
  qed
  have t: "translate (self_x d2) (self_y d2) = Inr (Affine2D_translate px py)"
    by (simp add: translate_def d2_def)
  have l: "update_loop d2 s' t' (components d2) w =
             (None, with_transform (Composite (Composite s' t') (TransData a)) (components d) w)" for s' t'
    using update_loop_with_transform [of d2 a s' t' "components d2" w] a by (simp add: d2_def)
  have "update x y (d, w) =
          (case scaling d2 w of
              Inl e \<Rightarrow> (Some e, d2, w)
            | Inr (xScaling, yScaling) \<Rightarrow>
                (case translate (self_x d2) (self_y d2) of
                   Inl e \<Rightarrow> (Some e, d2, w)
                 | Inr translation \<Rightarrow>
                     (case update_loop d2 (Affine2D_scale xScaling yScaling) translation (components d2) w of
                        (r, w') \<Rightarrow> (r, d2, w'))))"
    unfolding update_def prod.case d2 [unfolded Let_def, symmetric] Let_def ..
  then have "update x y (d, w) =
          (None, d2,
           with_transform
             (spec_transform (spec_horizontal_scale vw vh (spec_height d w)) px py a)
             (components d) w)"
    by (simp add: s t l spec_transform_def)
  then show ?thesis
    by (simp only: d2_def)
qed

section \<open>Scale, position and failures\<close>

lemma vertical_min_le_max:
  "get_xy (patch_store w c) \<noteq> [] \<Longrightarrow> vertical_min w c \<le> vertical_max w c"
proof -
  assume "get_xy (patch_store w c) \<noteq> []"
  then obtain v where v: "v \<in> snd ` set (get_xy (patch_store w c))"
    by (cases "get_xy (patch_store w c)") auto
  then have "Min (snd ` set (get_xy (patch_store w c))) \<le> v"
    and "v \<le> Max (snd ` set (get_xy (patch_store w c)))"
    by simp_all
  then show ?thesis
    by (simp add: vertical_min_def vertical_max_def)
qed

lemma spec_height_nonneg:
  assumes "components d \<noteq> []" and "has_vertices d w"
  shows "0 \<le> spec_height d w"
proof -
  from assms(1) obtain c where c: "c \<in> set (components d)"
    by (cases "components d") auto
  with assms(2) have "vertical_min w c \<le> vertical_max w c"
    by (simp add: has_vertices_def vertical_min_le_max)
  moreover have "Min (vertical_min w ` set (components d)) \<le> vertical_min w c"
    using c by simp
  moreover have "vertical_max w c \<le> Max (vertical_max w ` set (components d))"
    using c by simp
  ultimately show ?thesis
    by (simp add: spec_height_def)
qed

lemma spec_horizontal_scale_real:
  "0 < vh \<Longrightarrow> 0 \<le> h \<Longrightarrow>
   spec_horizontal_scale vw vh h = Finite (vw * ((h / vh) / 0.2) powr (3 / 4))"
proof -
  assume vh: "0 < vh" and h: "0 \<le> h"
  then have "0 \<le> h / vh / 0.2" by simp
  then have "\<not> h / vh / 0.2 < 0" by (simp only: not_less)
  with vh show ?thesis
    by (simp add: spec_horizontal_scale_def del: divide_divide_eq_left divide_divide_eq_right)
qed

lemma placed_simps:
  "components placed = [0, 2]" "self_axes placed = Some 0"
  "self_x placed = Some 3" "self_y placed = Some 4"
  by (simp_all add: placed_def)

lemma placed_attached: "attached placed scene"
  by (simp add: attached_def has_vertices_def placed_simps scene_simps)

lemma placed_spec_height: "spec_height placed scene = 5"
  by (simp add: spec_height_def placed_simps vertical_max_def vertical_min_def scene_simps)

lemma attached_update_spec:
  assumes "attached d w" and a: "self_axes d = Some a"
    and b: "viewLim_bounds (axes_store w a) = (x0, y0, vw, vh)"
    and px: "(if x \<noteq> None then x else self_x d) = Some px"
    and py: "(if y \<noteq> None then y else self_y d) = Some py"
  shows "update x y (d, w) =
           (None, d\<lparr>self_x := Some px, self_y := Some py\<rparr>,
            with_transform
              (spec_transform (spec_horizontal_scale vw vh (spec_height d w)) px py a)
              (components d) w)"
  using assms(1) by (intro update_spec [OF a b _ _ px py]) (simp_all add: attached_def)

lemma attached_after_update:
  assumes "attached d w"
  shows "attached (d\<lparr>self_x := Some px, self_y := Some py\<rparr>) (with_transform t cs w)"
  using assms by (simp add: attached_def has_vertices_def with_transform_simps)

lemma scene_scale: "spec_horizontal_scale 10 10 5 = Finite (10 * (5 / 2) powr (3 / 4))"
  by (simp add: spec_horizontal_scale_def)

lemma remove_empty: "components d = [] \<Longrightarrow> remove (d, w) = (None, d, w)"
  by (simp add: remove_def)

lemma height_empty: "components d = [] \<Longrightarrow> height d w = Inl ValueError"
  by (simp add: height_def)

lemma update_unattached:
  "self_axes d = None \<Longrightarrow> fst (update x y (d, w)) = Some AttributeError"
  by (simp add: update_def scaling_def axesToDataScale_def Let_def)

lemma update_empty:
  "components d = [] \<Longrightarrow> self_axes d \<noteq> None \<Longrightarrow> fst (update x y (d, w)) = Some ValueError"
  by (auto simp: update_def scaling_def axesToDataScale_def height_def Let_def split: prod.splits)

section \<open>Attaching and removing\<close>

lemma add_patch_frame:
  assumes "add_patch a p w = (r, w')"
  shows "get_xy (patch_store w' c) = get_xy (patch_store w c)"
    and "viewLim_bounds (axes_store w' b) = viewLim_bounds (axes_store w b)"
    and "patch_transform (patch_store w c) = Some t \<Longrightarrow> patch_transform (patch_store w' c) = Some t"
  using assms
  by (auto simp: add_patch_def set_figure_def set_transform_def Let_def split: if_splits)

lemma applyTo_loop_frame:
  assumes "applyTo_loop d cs w = (r, w')"
  shows "get_xy (patch_store w' c) = get_xy (patch_store w c)"
    and "viewLim_bounds (axes_store w' b) = viewLim_bounds (axes_store w b)"
    and "patch_transform (patch_store w c) = Some t \<Longrightarrow> patch_transform (patch_store w' c) = Some t"
  using assms
proof (induction cs arbitrary: w)
  case Nil
  { case 1 then show ?case by simp }
  { case 2 then show ?case by simp }
  { case 3 then show ?case by simp }
next
  case (Cons c' cs)
  { case 1 then show ?case
      by (auto split: option.splits prod.splits simp: Cons.IH(1) add_patch_frame(1)) }
  { case 2 then show ?case
      by (auto split: option.splits prod.splits simp: Cons.IH(2) add_patch_frame(2)) }
  { case 3 then show ?case
      by (auto split: option.splits prod.splits dest: add_patch_frame(3) Cons.IH(3)) }
qed

lemma update_None_D:
  assumes "fst (update x y (d, w)) = None"
  shows "\<exists>r. scaling (d\<lparr>self_x := (if x \<noteq> None then x else self_x d),
                          self_y := (if y \<noteq> None then y else self_y d)\<rparr>) w = Inr r"
proof -
  have e: "(let d1 = (if x \<noteq> None then d\<lparr>self_x := x\<rparr> else d)
            in (if y \<noteq> None then d1\<lparr>self_y := y\<rparr> else d1)) =
           d\<lparr>self_x := (if x \<noteq> None then x else self_x d),
             self_y := (if y \<noteq> None then y else self_y d)\<rparr>"
    by (cases d) simp
  show ?thesis
  proof (rule ccontr)
    assume "\<not> ?thesis"
    then obtain err where
      "scaling (d\<lparr>self_x := (if x \<noteq> None then x else self_x d),
                 self_y := (if y \<noteq> None then y else self_y d)\<rparr>) w = Inl err"
      by (metis sum.exhaust)
    then have "fst (update x y (d, w)) = Some err"
      unfolding update_def prod.case e [unfolded Let_def, symmetric] Let_def by simp
    with assms show False by simp
  qed
qed

lemma applyTo_returned:
  assumes r: "fst (applyTo a x y (d, w)) = None"
    and b: "viewLim_bounds (axes_store w a) = (x0, y0, vw, vh)"
  shows "components d \<noteq> []" and "has_vertices d w"
    and "fst (snd (applyTo a x y (d, w))) = d\<lparr>self_axes := Some a, self_x := Some x, self_y := Some y\<rparr>"
    and "applyTo_loop (d\<lparr>self_axes := Some a, self_x := Some x, self_y := Some y\<rparr>) (components d)
            (with_transform (spec_transform (spec_horizontal_scale vw vh (spec_height d w)) x y a)
               (components d) w) = (None, snd (snd (applyTo a x y (d, w))))"
proof -
  define d1 where "d1 = d\<lparr>self_axes := Some a, self_x := Some x, self_y := Some y\<rparr>"
  have u: "fst (update None None (d1, w)) = None"
    using r by (auto simp: applyTo_def d1_def split: prod.splits option.splits)
  from update_None_D [OF u] obtain s where s: "scaling d1 w = Inr s"
    by auto
  from scaling_Inr_D(2,3) [OF s] show c: "components d \<noteq> []" and v: "has_vertices d w"
    by (simp_all add: d1_def has_vertices_def)
  have c1: "components d1 \<noteq> []" and v1: "has_vertices d1 w"
    using c v by (simp_all add: d1_def has_vertices_def)
  have cd: "components d1 = components d" by (simp add: d1_def)
  have h: "spec_height d1 w = spec_height d w"
    by (rule spec_height_cong) (simp_all add: d1_def)
  have "update None None (d1, w) =
          (None, d1\<lparr>self_x := Some x, self_y := Some y\<rparr>,
           with_transform (spec_transform (spec_horizontal_scale vw vh (spec_height d1 w)) x y a)
             (components d1) w)"
    by (rule update_spec [OF _ b c1 v1]) (simp_all add: d1_def)
  then have u1: "update None None (d1, w) =
          (None, d1,
           with_transform (spec_transform (spec_horizontal_scale vw vh (spec_height d w)) x y a)
             (components d) w)"
    by (simp add: h) (simp add: d1_def)
  from u1 show "fst (snd (applyTo a x y (d, w))) = d\<lparr>self_axes := Some a, self_x := Some x, self_y := Some y\<rparr>"
    by (simp add: applyTo_def d1_def [symmetric] split: prod.splits)
  from u1 r show "applyTo_loop (d\<lparr>self_axes := Some a, self_x := Some x, self_y := Some y\<rparr>) (components d)
            (with_transform (spec_transform (spec_horizontal_scale vw vh (spec_height d w)) x y a)
               (components d) w) = (None, snd (snd (applyTo a x y (d, w))))"
    by (simp add: applyTo_def d1_def [symmetric] cd split: prod.splits)
qed

lemma add_patch_added:
  assumes "addable a w c"
  shows "add_patch a c w = (None, added a [c] w)"
  using assms
  by (auto simp: add_patch_def set_figure_def addable_def added_def set_transform_def Let_def
      fun_eq_iff split: option.splits intro!: world.equality)

lemma added_Cons: "added a cs (added a [c] w) = added a (c # cs) w"
  by (auto simp: added_def fun_eq_iff split: option.splits intro!: world.equality)

lemma added_Nil: "added a [] w = w"
  by (simp add: added_def)

lemma applyTo_loop_added:
  assumes "self_axes d = Some a"
    and "\<forall>c \<in> set cs. addable a w c"
  shows "applyTo_loop d cs w = (None, added a cs w)"
  using assms(2)
proof (induction cs arbitrary: w)
  case Nil
  show ?case by (simp add: added_Nil)
next
  case (Cons c cs)
  from Cons.prems have c: "addable a w c"
    by simp
  have "\<forall>c' \<in> set cs. addable a (added a [c] w) c'"
    using Cons.prems by (simp add: added_def addable_def)
  then have "applyTo_loop d cs (added a [c] w) = (None, added a cs (added a [c] w))"
    by (rule Cons.IH)
  then show ?case
    using assms(1) by (simp add: add_patch_added [OF c] added_Cons)
qed

lemma added_simps:
  "get_xy (patch_store (added a cs w) c) = get_xy (patch_store w c)"
  "viewLim_bounds (axes_store (added a cs w) b) = viewLim_bounds (axes_store w b)"
  "axes_patches (axes_store (added a cs w) a) = axes_patches (axes_store w a) @ cs"
  "c \<in> set cs \<Longrightarrow> remove_method (patch_store (added a cs w) c) = Some a"
  "patch_transform (patch_store w c) = Some t \<Longrightarrow>
     patch_transform (patch_store (added a cs w) c) = Some t"
  by (simp_all add: added_def)

lemma applyTo_spec:
  assumes b: "viewLim_bounds (axes_store w a) = (x0, y0, vw, vh)"
    and c: "components d \<noteq> []" and v: "has_vertices d w"
    and f: "\<forall>c \<in> set (components d). addable a w c"
  shows "applyTo a x y (d, w) =
           (None, d\<lparr>self_axes := Some a, self_x := Some x, self_y := Some y\<rparr>,
            added a (components d)
              (with_transform
                 (spec_transform (spec_horizontal_scale vw vh (spec_height d w)) x y a)
                 (components d) w))"
proof -
  define d1 where "d1 = d\<lparr>self_axes := Some a, self_x := Some x, self_y := Some y\<rparr>"
  define w1 where "w1 = with_transform
                 (spec_transform (spec_horizontal_scale vw vh (spec_height d w)) x y a)
                 (components d) w"
  have cd: "components d1 = components d" by (simp add: d1_def)
  have c1: "components d1 \<noteq> []" and v1: "has_vertices d1 w"
    using c v by (simp_all add: d1_def has_vertices_def)
  have h: "spec_height d1 w = spec_height d w"
    by (rule spec_height_cong) (simp_all add: d1_def)
  have "update None None (d1, w) =
          (None, d1\<lparr>self_x := Some x, self_y := Some y\<rparr>,
           with_transform (spec_transform (spec_horizontal_scale vw vh (spec_height d1 w)) x y a)
             (components d1) w)"
    by (rule update_spec [OF _ b c1 v1]) (simp_all add: d1_def)
  then have u1: "update None None (d1, w) = (None, d1, w1)"
    by (simp add: h w1_def) (simp add: d1_def)
  have "applyTo_loop d1 (components d) w1 = (None, added a (components d) w1)"
    by (rule applyTo_loop_added)
      (use f in \<open>simp_all add: d1_def w1_def addable_def with_transform_simps\<close>)
  with u1 have "applyTo a x y (d, w) = (None, d1, added a (components d) w1)"
    by (simp add: applyTo_def d1_def [symmetric] cd)
  then show ?thesis
    by (simp only: d1_def w1_def)
qed

lemma applyTo_composed:
  assumes "fst (applyTo a x y (d, w)) = None"
    and "viewLim_bounds (axes_store w a) = (x0, y0, viewWidth, viewHeight)"
  shows "components d \<noteq> [] \<and>
         scaling (fst (snd (applyTo a x y (d, w)))) (snd (snd (applyTo a x y (d, w)))) =
           Inr (spec_horizontal_scale viewWidth viewHeight (spec_height d w), Finite 1) \<and>
         (\<forall>c \<in> set (components d).
            patch_transform (patch_store (snd (snd (applyTo a x y (d, w)))) c) =
              Some (spec_transform
                      (spec_horizontal_scale viewWidth viewHeight (spec_height d w)) x y a))"
proof -
  define d1 where "d1 = d\<lparr>self_axes := Some a, self_x := Some x, self_y := Some y\<rparr>"
  define t where "t = spec_transform (spec_horizontal_scale viewWidth viewHeight (spec_height d w)) x y a"
  define w1 where "w1 = with_transform t (components d) w"
  define w2 where "w2 = snd (snd (applyTo a x y (d, w)))"
  note r = applyTo_returned [OF assms]
  have c: "components d \<noteq> []" and v: "has_vertices d w" by (rule r)+
  have d': "fst (snd (applyTo a x y (d, w))) = d1"
    using r(3) by (simp add: d1_def)
  have l: "applyTo_loop d1 (components d) w1 = (None, w2)"
    using r(4) by (simp add: d1_def w1_def w2_def t_def)
  have "scaling d1 w2 = scaling d1 w"
  proof (rule scaling_cong)
    show "\<forall>c\<in>set (components d1). get_xy (patch_store w2 c) = get_xy (patch_store w c)"
      by (simp add: applyTo_loop_frame(1) [OF l] w1_def with_transform_simps)
    show "\<forall>a. viewLim_bounds (axes_store w2 a) = viewLim_bounds (axes_store w a)"
      by (simp add: applyTo_loop_frame(2) [OF l] w1_def with_transform_simps)
  qed simp_all
  moreover have "scaling d1 w = Inr (spec_horizontal_scale viewWidth viewHeight (spec_height d w), Finite 1)"
  proof -
    have "scaling d1 w = Inr (spec_horizontal_scale viewWidth viewHeight (spec_height d1 w), Finite 1)"
      by (rule scaling_spec [OF _ assms(2)]) (use c v in \<open>simp_all add: d1_def has_vertices_def\<close>)
    moreover have "spec_height d1 w = spec_height d w"
      by (rule spec_height_cong) (simp_all add: d1_def)
    ultimately show ?thesis by simp
  qed
  ultimately have s: "scaling d1 w2 =
      Inr (spec_horizontal_scale viewWidth viewHeight (spec_height d w), Finite 1)"
    by simp
  have "patch_transform (patch_store w2 c) = Some t" if "c \<in> set (components d)" for c
  proof (rule applyTo_loop_frame(3) [OF l])
    show "patch_transform (patch_store w1 c) = Some t"
      using that by (simp add: w1_def with_transform_simps)
  qed
  with c s show ?thesis
    by (simp add: d' w2_def [symmetric] t_def)
qed

lemma scene_fresh:
  "patch_axes (patch_store scene c) = None" "remove_method (patch_store scene c) = None"
  "patch_figure (patch_store scene c) = None" "addable a scene c"
  by (simp_all add: scene_def new_patch_def addable_def)

lemma scene_applyTo:
  "applyTo 0 3 4 (Drawing [0, 2], scene) =
     (None, placed,
      added 0 [0, 2]
        (with_transform (spec_transform (Finite (10 * (5 / 2) powr (3 / 4))) 3 4 0) [0, 2] scene))"
proof -
  have b: "viewLim_bounds (axes_store scene 0) = (0, 0, 10, 10)" by (simp add: scene_simps)
  have c: "components (Drawing [0, 2]) \<noteq> []" and v: "has_vertices (Drawing [0, 2]) scene"
    by (simp_all add: Drawing_def has_vertices_def scene_simps)
  have f: "\<forall>c \<in> set (components (Drawing [0, 2])). addable 0 scene c"
    by (simp add: scene_fresh)
  have p: "(Drawing [0, 2])\<lparr>self_axes := Some 0, self_x := Some 3, self_y := Some 4\<rparr> = placed"
    by (simp add: Drawing_def placed_def)
  from applyTo_spec [OF b c v f, of 3 4] show ?thesis
    by (simp add: p scene_spec_height scene_scale) (simp add: Drawing_def)
qed

lemma add_patch_returned:
  assumes "add_patch a c w = (None, w')"
  shows "addable a w c"
  using assms
  by (auto simp: add_patch_def set_figure_def addable_def set_transform_def Let_def
      split: if_splits)

lemma applyTo_loop_returned:
  assumes "self_axes d = Some a" and "applyTo_loop d cs w = (None, w')"
  shows "w' = added a cs w"
  using assms(2)
proof (induction cs arbitrary: w)
  case Nil
  then show ?case by (simp add: added_Nil)
next
  case (Cons c cs)
  from Cons.prems assms(1) obtain w1 where 1: "add_patch a c w = (None, w1)"
    and 2: "applyTo_loop d cs w1 = (None, w')"
    by (auto split: prod.splits option.splits)
  from 1 have "addable a w c" by (rule add_patch_returned)
  then have "add_patch a c w = (None, added a [c] w)" by (rule add_patch_added)
  with 1 have "w1 = added a [c] w" by simp
  with Cons.IH [OF 2] show ?case by (simp add: added_Cons)
qed

lemma applyTo_registered:
  assumes r: "fst (applyTo a x y (d, w)) = None"
    and n: "\<forall>c \<in> set (components d). c \<notin> set (axes_patches (axes_store w a))"
  shows "registered (fst (snd (applyTo a x y (d, w)))) (snd (snd (applyTo a x y (d, w)))) a"
proof -
  obtain x0 y0 vw vh where b: "viewLim_bounds (axes_store w a) = (x0, y0, vw, vh)"
    by (cases "viewLim_bounds (axes_store w a)") auto
  note t = applyTo_returned [OF r b]
  have "snd (snd (applyTo a x y (d, w))) =
          added a (components d)
            (with_transform (spec_transform (spec_horizontal_scale vw vh (spec_height d w)) x y a)
               (components d) w)"
    by (rule applyTo_loop_returned [OF _ t(4)]) simp
  with n show ?thesis
    by (simp add: t(3) registered_def added_simps with_transform_simps count_eq_zero_iff)
qed

lemma scene_applyTo_twice:
  "applyTo 0 3 4 (snd (applyTo 0 3 4 (Drawing [0, 2], scene))) =
     (None, placed,
      added 0 [0, 2]
        (with_transform (spec_transform (Finite (10 * (5 / 2) powr (3 / 4))) 3 4 0) [0, 2]
           (added 0 [0, 2]
              (with_transform (spec_transform (Finite (10 * (5 / 2) powr (3 / 4))) 3 4 0) [0, 2]
                 scene))))"
proof -
  define w1 where "w1 = added 0 [0, 2]
      (with_transform (spec_transform (Finite (10 * (5 / 2) powr (3 / 4))) 3 4 0) [0, 2] scene)"
  have b: "viewLim_bounds (axes_store w1 0) = (0, 0, 10, 10)"
    by (simp add: w1_def added_simps with_transform_simps scene_simps)
  have c: "components placed \<noteq> []" by (simp add: placed_simps)
  have g: "get_xy (patch_store w1 c) = get_xy (patch_store scene c)" for c
    by (simp add: w1_def added_simps with_transform_simps)
  have v: "has_vertices placed w1"
    using placed_attached by (simp add: attached_def has_vertices_def g)
  have f: "\<forall>c \<in> set (components placed). addable 0 w1 c"
    by (simp add: placed_simps w1_def addable_def added_def)
  have h: "spec_height placed w1 = 5"
    using spec_height_cong [of placed placed w1 scene] by (simp add: g placed_spec_height)
  have p: "placed\<lparr>self_axes := Some 0, self_x := Some 3, self_y := Some 4\<rparr> = placed"
    by (simp add: placed_def)
  from applyTo_spec [OF b c v f, of 3 4]
  have "applyTo 0 3 4 (placed, w1) =
     (None, placed,
      added 0 [0, 2]
        (with_transform (spec_transform (Finite (10 * (5 / 2) powr (3 / 4))) 3 4 0) [0, 2] w1))"
    by (simp add: p h scene_scale placed_simps)
  then show ?thesis
    by (simp add: scene_applyTo w1_def)
qed

lemma artist_remove_spec:
  assumes "remove_method (patch_store w c) = Some a"
    and "c \<in> set (axes_patches (axes_store w a))"
  shows "artist_remove c w =
           (None,
            w\<lparr>axes_store := (axes_store w)
                  (a := (axes_store w a)\<lparr>axes_patches := remove1 c (axes_patches (axes_store w a))\<rparr>),
               patch_store := (patch_store w)(c := (patch_store w c)\<lparr>patch_axes := None, patch_figure := None\<rparr>)\<rparr>)"
  using assms by (simp add: artist_remove_def)

lemma remove_loop_spec:
  assumes "\<forall>c \<in> set cs. remove_method (patch_store w c) = Some a"
    and "mset cs \<subseteq># mset (axes_patches (axes_store w a))"
  shows "fst (remove_loop cs w) = None \<and>
         mset (axes_patches (axes_store (snd (remove_loop cs w)) a)) =
           mset (axes_patches (axes_store w a)) - mset cs"
  using assms
proof (induction cs arbitrary: w)
  case Nil
  show ?case by simp
next
  case (Cons c cs)
  define w1 where "w1 =
     w\<lparr>axes_store := (axes_store w)
           (a := (axes_store w a)\<lparr>axes_patches := remove1 c (axes_patches (axes_store w a))\<rparr>),
        patch_store := (patch_store w)(c := (patch_store w c)\<lparr>patch_axes := None, patch_figure := None\<rparr>)\<rparr>"
  from Cons.prems(1) have m: "remove_method (patch_store w c) = Some a" by simp
  from Cons.prems(2) have i: "c \<in> set (axes_patches (axes_store w a))"
    by (metis mset.simps(2) mset_subset_eq_insertD set_mset_mset)
  have r: "artist_remove c w = (None, w1)"
    unfolding w1_def using m i by (rule artist_remove_spec)
  have p1: "axes_patches (axes_store w1 a) = remove1 c (axes_patches (axes_store w a))"
    by (simp add: w1_def)
  have "\<forall>c' \<in> set cs. remove_method (patch_store w1 c') = Some a"
    using Cons.prems(1) by (simp add: w1_def)
  moreover have "mset cs \<subseteq># mset (axes_patches (axes_store w1 a))"
    using Cons.prems(2) by (simp add: p1 insert_subset_eq_iff)
  ultimately have "fst (remove_loop cs w1) = None \<and>
         mset (axes_patches (axes_store (snd (remove_loop cs w1)) a)) =
           mset (axes_patches (axes_store w1 a)) - mset cs"
    by (rule Cons.IH)
  then show ?case
    by (simp add: r p1 split: prod.splits option.splits)
qed

lemma applyTo_attached:
  assumes "fst (applyTo a x y (d, w)) = None"
  shows "attached (fst (snd (applyTo a x y (d, w)))) (snd (snd (applyTo a x y (d, w))))"
proof -
  obtain x0 y0 vw vh where b: "viewLim_bounds (axes_store w a) = (x0, y0, vw, vh)"
    by (cases "viewLim_bounds (axes_store w a)") auto
  note r = applyTo_returned [OF assms b]
  have "get_xy (patch_store (snd (snd (applyTo a x y (d, w)))) c) = get_xy (patch_store w c)" for c
    by (simp add: applyTo_loop_frame(1) [OF r(4)] with_transform_simps)
  with r(1,2) show ?thesis
    by (simp add: attached_def has_vertices_def r(3))
qed

section \<open>The worked example\<close>

lemma five_halves_powr_fourth: "((5 / 2 :: real) powr (3 / 4)) ^ 4 = 125 / 8"
proof -
  have "((5 / 2 :: real) powr (3 / 4)) ^ 4 = (5 / 2) powr (of_nat 4 * (3 / 4))"
    by (rule powr_power) simp
  also have "\<dots> = (5 / 2 :: real) powr 3" by simp
  also have "\<dots> = (5 / 2) ^ 3" by (rule powr_numeral) simp
  also have "\<dots> = (125 / 8 :: real)" by (simp add: power3_eq_cube)
  finally show ?thesis .
qed

lemma example_scale_bounds:
  "(19.88 :: real) < 10 * (5 / 2) powr (3 / 4)" "10 * (5 / 2) powr (3 / 4) < (19.89 :: real)"
proof -
  have "(1.988 :: real) ^ 4 < ((5 / 2) powr (3 / 4)) ^ 4"
    by (simp only: five_halves_powr_fourth) (simp add: power4_eq_xxxx)
  then have "(1.988 :: real) < (5 / 2) powr (3 / 4)"
    by (rule power_less_imp_less_base) simp
  then show "(19.88 :: real) < 10 * (5 / 2) powr (3 / 4)" by simp
  have "((5 / 2 :: real) powr (3 / 4)) ^ 4 < 1.989 ^ 4"
    by (simp only: five_halves_powr_fourth) (simp add: power4_eq_xxxx)
  then have "(5 / 2) powr (3 / 4) < (1.989 :: real)"
    by (rule power_less_imp_less_base) simp
  then show "10 * (5 / 2) powr (3 / 4) < (19.89 :: real)" by simp
qed

lemma scene_extent:
  "Max (vertical_max scene ` set (components (Drawing [0, 2]))) = 0"
  "Min (vertical_min scene ` set (components (Drawing [0, 2]))) = - 5"
  by (simp_all add: Drawing_def vertical_max_def vertical_min_def scene_simps)

section \<open>The claims\<close>

text \<open>
  C1. When \<^verbatim>\<open>applyTo(axes, x, y)\<close> has returned, the component list is not empty,
  \<^verbatim>\<open>scaling()\<close> of the Drawing gives the horizontal scale sx of the formula at the
  axes' view extents and the vertical scale 1, and every component's transform is
  \<^verbatim>\<open>scale(sx, 1) + translate(x, y) + axes.transData\<close>: scale, then translate, then the
  canvas's data-to-screen transform.
\<close>

theorem applyTo_sets_composed_transform:
  assumes "fst (applyTo a x y (d, w)) = None"
    and "viewLim_bounds (axes_store w a) = (x0, y0, viewWidth, viewHeight)"
  shows "components d \<noteq> [] \<and>
         scaling (fst (snd (applyTo a x y (d, w)))) (snd (snd (applyTo a x y (d, w)))) =
           Inr (spec_horizontal_scale viewWidth viewHeight (spec_height d w), Finite 1) \<and>
         (\<forall>c \<in> set (components d).
            patch_transform (patch_store (snd (snd (applyTo a x y (d, w)))) c) =
              Some (spec_transform
                      (spec_horizontal_scale viewWidth viewHeight (spec_height d w)) x y a))"
  using assms by (rule applyTo_composed)

theorem applyTo_sets_composed_transform_witness:
  "fst (applyTo 0 3 4 (Drawing [0, 2], scene)) = None \<and>
   viewLim_bounds (axes_store scene 0) = (0, 0, 10, 10) \<and>
   scaling (fst (snd (applyTo 0 3 4 (Drawing [0, 2], scene))))
     (snd (snd (applyTo 0 3 4 (Drawing [0, 2], scene)))) =
     Inr (Finite (10 * (5 / 2) powr (3 / 4)), Finite 1) \<and>
   patch_transform (patch_store (snd (snd (applyTo 0 3 4 (Drawing [0, 2], scene)))) 0) =
     Some (Composite
             (Composite (Affine2D_scale (Finite (10 * (5 / 2) powr (3 / 4))) (Finite 1))
                (Affine2D_translate 3 4))
             (TransData 0)) \<and>
   patch_transform (patch_store (snd (snd (applyTo 0 3 4 (Drawing [0, 2], scene)))) 2) =
     Some (Composite
             (Composite (Affine2D_scale (Finite (10 * (5 / 2) powr (3 / 4))) (Finite 1))
                (Affine2D_translate 3 4))
             (TransData 0))"
proof -
  have r: "fst (applyTo 0 3 4 (Drawing [0, 2], scene)) = None"
    by (simp only: scene_applyTo fst_conv)
  have b: "viewLim_bounds (axes_store scene 0) = (0, 0, 10, 10)" by (simp add: scene_simps)
  have c: "components (Drawing [0, 2]) = [0, 2]" by (simp add: Drawing_def)
  note t = applyTo_sets_composed_transform [OF r b]
  from t have "scaling (fst (snd (applyTo 0 3 4 (Drawing [0, 2], scene))))
     (snd (snd (applyTo 0 3 4 (Drawing [0, 2], scene)))) =
     Inr (Finite (10 * (5 / 2) powr (3 / 4)), Finite 1)"
    by (simp only: scene_spec_height scene_scale)
  moreover from t [THEN conjunct2, THEN conjunct2] have
    "patch_transform (patch_store (snd (snd (applyTo 0 3 4 (Drawing [0, 2], scene)))) 0) =
     Some (spec_transform (Finite (10 * (5 / 2) powr (3 / 4))) 3 4 0)"
    "patch_transform (patch_store (snd (snd (applyTo 0 3 4 (Drawing [0, 2], scene)))) 2) =
     Some (spec_transform (Finite (10 * (5 / 2) powr (3 / 4))) 3 4 0)"
    by (simp_all only: scene_spec_height scene_scale c list.set insert_iff simp_thms ball_simps)
  ultimately show ?thesis
    using r b by (simp only: spec_transform_def simp_thms)
qed

text \<open>
  C2. For an attached Drawing with a non-empty component list, \<^verbatim>\<open>height()\<close> is the
  intrinsic height and \<^verbatim>\<open>scaling()\<close> returns the horizontal scale
  viewWidth * ((intrinsicHeight / viewHeight) / 0.2) ** (3/4) of the view extents
  \<^verbatim>\<open>viewLim.bounds[2:]\<close>, and the vertical scale 1. For a view of positive height the
  formula is the one of real arithmetic.
\<close>

theorem scaling_formula:
  assumes "attached d w" and "components d \<noteq> []" and "self_axes d = Some a"
    and "viewLim_bounds (axes_store w a) = (x0, y0, viewWidth, viewHeight)"
  shows "height d w = Inr (spec_height d w) \<and>
         scaling d w = Inr (spec_horizontal_scale viewWidth viewHeight (spec_height d w), Finite 1) \<and>
         (0 < viewHeight \<longrightarrow>
            scaling d w =
              Inr (Finite (viewWidth * ((spec_height d w / viewHeight) / 0.2) powr (3 / 4)), Finite 1))"
proof -
  from assms(1) have v: "has_vertices d w" by (simp add: attached_def)
  have h: "height d w = Inr (spec_height d w)"
    using assms(2) v by (rule height_spec)
  have s: "scaling d w = Inr (spec_horizontal_scale viewWidth viewHeight (spec_height d w), Finite 1)"
    using assms(3,4,2) v by (rule scaling_spec)
  have "0 \<le> spec_height d w"
    using assms(2) v by (rule spec_height_nonneg)
  then have "0 < viewHeight \<Longrightarrow>
      spec_horizontal_scale viewWidth viewHeight (spec_height d w) =
      Finite (viewWidth * ((spec_height d w / viewHeight) / 0.2) powr (3 / 4))"
    by (simp add: spec_horizontal_scale_real)
  with h s show ?thesis by simp
qed

theorem scaling_formula_witness:
  "attached placed scene \<and> components placed \<noteq> [] \<and> self_axes placed = Some 0 \<and>
   viewLim_bounds (axes_store scene 0) = (0, 0, 10, 10) \<and> (0::real) < 10 \<and>
   height placed scene = Inr 5 \<and>
   scaling placed scene = Inr (Finite (10 * ((5 / 10) / 0.2) powr (3 / 4)), Finite 1)"
proof -
  have c: "components placed \<noteq> []" by (simp add: placed_simps)
  have b: "viewLim_bounds (axes_store scene 0) = (0, 0, 10, 10)" by (simp add: scene_simps)
  note t = scaling_formula [OF placed_attached c placed_simps(2) b]
  from t have "height placed scene = Inr 5"
    by (simp only: placed_spec_height)
  moreover from t [THEN conjunct2, THEN conjunct2] have
    "scaling placed scene = Inr (Finite (10 * ((5 / 10) / 0.2) powr (3 / 4)), Finite 1)"
    by (simp add: placed_spec_height)
  ultimately show ?thesis
    using placed_attached c b by (simp add: placed_simps)
qed

text \<open>
  C3. For a Drawing with a non-empty component list, each component having a vertex,
  \<^verbatim>\<open>height()\<close> returns the greatest of the components' vertical maxima minus the
  least of their vertical minima, over the untransformed vertices. The value is the same
  for any Drawing with these components and any store in which these components have
  these vertices, whatever the axes, the position and the transforms are: attachment and
  transforms do not enter. \<^verbatim>\<open>height\<close> returns a value and no new state.
\<close>

theorem height_is_vertical_extent:
  assumes "components d \<noteq> []" and "has_vertices d w"
  shows "height d w = Inr (spec_height d w) \<and>
         (\<forall>d' w'. components d' = components d \<and>
                  (\<forall>c \<in> set (components d). get_xy (patch_store w' c) = get_xy (patch_store w c))
                  \<longrightarrow> height d' w' = height d w)"
proof (intro conjI allI impI)
  show "height d w = Inr (spec_height d w)"
    using assms by (rule height_spec)
next
  fix d' :: drawing and w' :: world
  assume "components d' = components d \<and>
          (\<forall>c \<in> set (components d). get_xy (patch_store w' c) = get_xy (patch_store w c))"
  then show "height d' w' = height d w"
    by (simp add: height_cong)
qed

theorem height_is_vertical_extent_witness:
  "components (Drawing [0, 2]) \<noteq> [] \<and> has_vertices (Drawing [0, 2]) scene \<and>
   height (Drawing [0, 2]) scene = Inr 5 \<and>
   height ((Drawing [0, 2])\<lparr>self_axes := Some 0, self_x := Some 3, self_y := Some 4\<rparr>)
     (set_transform 0 (TransData 0) scene) = Inr 5"
proof -
  have c: "components (Drawing [0, 2]) \<noteq> []" by (simp add: Drawing_def)
  have v: "has_vertices (Drawing [0, 2]) scene"
    by (simp add: has_vertices_def Drawing_def scene_simps)
  note t = height_is_vertical_extent [OF c v]
  from t have h: "height (Drawing [0, 2]) scene = Inr 5" by (simp only: scene_spec_height)
  from t have "height ((Drawing [0, 2])\<lparr>self_axes := Some 0, self_x := Some 3, self_y := Some 4\<rparr>)
     (set_transform 0 (TransData 0) scene) = height (Drawing [0, 2]) scene"
    by (simp add: Drawing_def set_transform_def scene_simps)
  with c v h show ?thesis by simp
qed

text \<open>
  C4, as stated, fails in its number: with components spanning [-5, 0] and a view 10
  wide and 10 high, the scale is 10 * 2.5 ** (3/4), which is above 19.88, more than 2
  away from 17.46.
\<close>

theorem worked_example_counterexample:
  "spec_height placed scene = 5 \<and>
   viewLim_bounds (axes_store scene 0) = (0, 0, 10, 10) \<and>
   scaling placed scene = Inr (Finite (10 * (5 / 2) powr (3 / 4)), Finite 1) \<and>
   (19.88 :: real) < 10 * (5 / 2) powr (3 / 4) \<and>
   \<not> \<bar>10 * (5 / 2) powr (3 / 4) - (17.46 :: real)\<bar> < 2"
proof -
  have b: "viewLim_bounds (axes_store scene 0) = (0, 0, 10, 10)" by (simp add: scene_simps)
  have "scaling placed scene = Inr (spec_horizontal_scale 10 10 (spec_height placed scene), Finite 1)"
    using placed_simps(2) b by (rule scaling_spec) (use placed_attached in \<open>simp_all add: attached_def\<close>)
  then have s: "scaling placed scene = Inr (Finite (10 * (5 / 2) powr (3 / 4)), Finite 1)"
    by (simp only: placed_spec_height scene_scale)
  have "\<not> \<bar>10 * (5 / 2) powr (3 / 4) - (17.46 :: real)\<bar> < 2"
    using example_scale_bounds(1) by (simp add: abs_if)
  with s b placed_spec_height example_scale_bounds(1) show ?thesis
    by (simp only: simp_thms)
qed

text \<open>
  C4, amended. With components spanning the vertical range [-5, 0] and a view 10 wide
  and 10 high, the intrinsic height is 5, heightFactor is 5 / 10 = 0.5, and the
  horizontal scale is 10 * 2.5 ** (3/4), between 19.88 and 19.89. When attaching at
  (3, 4) has returned, every component's transform is the scale (10 * 2.5 ** (3/4), 1),
  then the translation (3, 4), then the canvas mapping.
\<close>

theorem worked_example:
  assumes "fst (applyTo a 3 4 (d, w)) = None"
    and "viewLim_bounds (axes_store w a) = (x0, y0, 10, 10)"
    and "Max (vertical_max w ` set (components d)) = 0"
    and "Min (vertical_min w ` set (components d)) = - 5"
  shows "height d w = Inr 5 \<and>
         fdiv (Finite 5) (Finite 10) = Finite (1 / 2) \<and>
         scaling (fst (snd (applyTo a 3 4 (d, w)))) (snd (snd (applyTo a 3 4 (d, w)))) =
           Inr (Finite (10 * (5 / 2) powr (3 / 4)), Finite 1) \<and>
         (19.88 :: real) < 10 * (5 / 2) powr (3 / 4) \<and>
         10 * (5 / 2) powr (3 / 4) < (19.89 :: real) \<and>
         (\<forall>c \<in> set (components d).
            patch_transform (patch_store (snd (snd (applyTo a 3 4 (d, w)))) c) =
              Some (Composite
                      (Composite (Affine2D_scale (Finite (10 * (5 / 2) powr (3 / 4))) (Finite 1))
                         (Affine2D_translate 3 4))
                      (TransData a)))"
proof -
  have sh: "spec_height d w = 5"
    using assms(3,4) by (simp add: spec_height_def)
  have c: "components d \<noteq> []" and v: "has_vertices d w"
    by (rule applyTo_returned [OF assms(1,2)])+
  have h: "height d w = Inr 5"
    using height_spec [OF c v] by (simp only: sh)
  note t = applyTo_composed [OF assms(1,2)]
  from t have s: "scaling (fst (snd (applyTo a 3 4 (d, w)))) (snd (snd (applyTo a 3 4 (d, w)))) =
           Inr (Finite (10 * (5 / 2) powr (3 / 4)), Finite 1)"
    by (simp only: sh scene_scale)
  from t [THEN conjunct2, THEN conjunct2]
  have p: "\<forall>c \<in> set (components d).
            patch_transform (patch_store (snd (snd (applyTo a 3 4 (d, w)))) c) =
              Some (Composite
                      (Composite (Affine2D_scale (Finite (10 * (5 / 2) powr (3 / 4))) (Finite 1))
                         (Affine2D_translate 3 4))
                      (TransData a))"
    by (simp only: sh scene_scale spec_transform_def)
  have f: "fdiv (Finite 5) (Finite 10) = Finite (1 / 2)" by simp
  from h f s p example_scale_bounds show ?thesis
    by (simp only: simp_thms)
qed

theorem worked_example_witness:
  "fst (applyTo 0 3 4 (Drawing [0, 2], scene)) = None \<and>
   viewLim_bounds (axes_store scene 0) = (0, 0, 10, 10) \<and>
   Max (vertical_max scene ` set (components (Drawing [0, 2]))) = 0 \<and>
   Min (vertical_min scene ` set (components (Drawing [0, 2]))) = - 5 \<and>
   height (Drawing [0, 2]) scene = Inr 5 \<and>
   scaling (fst (snd (applyTo 0 3 4 (Drawing [0, 2], scene))))
     (snd (snd (applyTo 0 3 4 (Drawing [0, 2], scene)))) =
     Inr (Finite (10 * (5 / 2) powr (3 / 4)), Finite 1) \<and>
   patch_transform (patch_store (snd (snd (applyTo 0 3 4 (Drawing [0, 2], scene)))) 0) =
     Some (Composite
             (Composite (Affine2D_scale (Finite (10 * (5 / 2) powr (3 / 4))) (Finite 1))
                (Affine2D_translate 3 4))
             (TransData 0)) \<and>
   patch_transform (patch_store (snd (snd (applyTo 0 3 4 (Drawing [0, 2], scene)))) 2) =
     Some (Composite
             (Composite (Affine2D_scale (Finite (10 * (5 / 2) powr (3 / 4))) (Finite 1))
                (Affine2D_translate 3 4))
             (TransData 0))"
proof -
  have r: "fst (applyTo 0 3 4 (Drawing [0, 2], scene)) = None"
    by (simp only: scene_applyTo fst_conv)
  have b: "viewLim_bounds (axes_store scene 0) = (0, 0, 10, 10)" by (simp add: scene_simps)
  have c: "components (Drawing [0, 2]) = [0, 2]" by (simp add: Drawing_def)
  note t = worked_example [OF r b scene_extent]
  from t have h: "height (Drawing [0, 2]) scene = Inr 5" by (rule conjunct1)
  from t have s: "scaling (fst (snd (applyTo 0 3 4 (Drawing [0, 2], scene))))
     (snd (snd (applyTo 0 3 4 (Drawing [0, 2], scene)))) =
     Inr (Finite (10 * (5 / 2) powr (3 / 4)), Finite 1)"
    by (simp only:)
  from t [THEN conjunct2, THEN conjunct2, THEN conjunct2, THEN conjunct2, THEN conjunct2]
  have p: "patch_transform (patch_store (snd (snd (applyTo 0 3 4 (Drawing [0, 2], scene)))) 0) =
     Some (Composite
             (Composite (Affine2D_scale (Finite (10 * (5 / 2) powr (3 / 4))) (Finite 1))
                (Affine2D_translate 3 4))
             (TransData 0))"
    "patch_transform (patch_store (snd (snd (applyTo 0 3 4 (Drawing [0, 2], scene)))) 2) =
     Some (Composite
             (Composite (Affine2D_scale (Finite (10 * (5 / 2) powr (3 / 4))) (Finite 1))
                (Affine2D_translate 3 4))
             (TransData 0))"
    by (simp_all only: c list.set insert_iff simp_thms ball_simps)
  from r b scene_extent h s p show ?thesis
    by (simp only: simp_thms)
qed

text \<open>
  C5, as stated, fails twice: before attach, \<^verbatim>\<open>height()\<close> of a Drawing whose
  components have vertices returns the height and raises nothing; and \<^verbatim>\<open>remove()\<close>
  of a Drawing with no component returns normally.
\<close>

theorem failures_counterexample:
  "self_axes (Drawing [0, 2]) = None \<and> height (Drawing [0, 2]) scene = Inr 5 \<and>
   components (Drawing []) = [] \<and> fst (remove (Drawing [], scene)) = None"
proof -
  have "components (Drawing [0, 2]) \<noteq> []" and "has_vertices (Drawing [0, 2]) scene"
    by (simp_all add: Drawing_def has_vertices_def scene_simps)
  then have "height (Drawing [0, 2]) scene = Inr (spec_height (Drawing [0, 2]) scene)"
    by (rule height_spec)
  then have "height (Drawing [0, 2]) scene = Inr 5"
    by (simp only: scene_spec_height)
  then show ?thesis
    by (simp add: Drawing_def remove_def)
qed

text \<open>
  C5, amended. \<^verbatim>\<open>update\<close> before attach raises \<^verbatim>\<open>AttributeError\<close>. With an empty
  component list \<^verbatim>\<open>height()\<close> raises \<^verbatim>\<open>ValueError\<close>, and so does \<^verbatim>\<open>update\<close>
  once the axes are set. The errors reach the caller as raised. \<^verbatim>\<open>height()\<close> needs no
  axes: with a component list that is not empty and a vertex in every component it
  returns the intrinsic height. \<^verbatim>\<open>remove()\<close> with an empty component list returns
  normally and changes nothing.
\<close>

theorem failures:
  "(self_axes d = None \<longrightarrow> fst (update x y (d, w)) = Some AttributeError) \<and>
   (components d = [] \<longrightarrow> height d w = Inl ValueError) \<and>
   (components d = [] \<and> self_axes d \<noteq> None \<longrightarrow> fst (update x y (d, w)) = Some ValueError) \<and>
   (components d \<noteq> [] \<and> has_vertices d w \<longrightarrow> height d w = Inr (spec_height d w)) \<and>
   (components d = [] \<longrightarrow> remove (d, w) = (None, d, w))"
  by (simp add: update_unattached height_empty update_empty height_spec remove_empty)

theorem failures_witness:
  "self_axes (Drawing [0, 2]) = None \<and>
   fst (update None None (Drawing [0, 2], scene)) = Some AttributeError \<and>
   components (Drawing [0, 2]) \<noteq> [] \<and> has_vertices (Drawing [0, 2]) scene \<and>
   height (Drawing [0, 2]) scene = Inr 5 \<and>
   components ((Drawing [])\<lparr>self_axes := Some 0\<rparr>) = [] \<and>
   self_axes ((Drawing [])\<lparr>self_axes := Some 0\<rparr>) \<noteq> None \<and>
   height ((Drawing [])\<lparr>self_axes := Some 0\<rparr>) scene = Inl ValueError \<and>
   fst (update (Some 3) (Some 4) ((Drawing [])\<lparr>self_axes := Some 0\<rparr>, scene)) = Some ValueError \<and>
   remove ((Drawing [])\<lparr>self_axes := Some 0\<rparr>, scene) =
     (None, (Drawing [])\<lparr>self_axes := Some 0\<rparr>, scene)"
proof -
  have h1: "self_axes (Drawing [0, 2]) = None" "components (Drawing [0, 2]) \<noteq> []"
    "has_vertices (Drawing [0, 2]) scene"
    by (simp_all add: Drawing_def has_vertices_def scene_simps)
  have h2: "components ((Drawing [])\<lparr>self_axes := Some 0\<rparr>) = []"
    "self_axes ((Drawing [])\<lparr>self_axes := Some 0\<rparr>) \<noteq> None"
    by (simp_all add: Drawing_def)
  from failures [of "Drawing [0, 2]" None None scene] h1
  have a: "fst (update None None (Drawing [0, 2], scene)) = Some AttributeError"
    "height (Drawing [0, 2]) scene = Inr 5"
    by (simp_all add: scene_spec_height)
  from failures [of "(Drawing [])\<lparr>self_axes := Some 0\<rparr>" "Some 3" "Some 4" scene] h2
  have b: "height ((Drawing [])\<lparr>self_axes := Some 0\<rparr>) scene = Inl ValueError"
    "fst (update (Some 3) (Some 4) ((Drawing [])\<lparr>self_axes := Some 0\<rparr>, scene)) = Some ValueError"
    "remove ((Drawing [])\<lparr>self_axes := Some 0\<rparr>, scene) =
       (None, (Drawing [])\<lparr>self_axes := Some 0\<rparr>, scene)"
    by simp_all
  from h1 h2 a b show ?thesis by simp
qed

text \<open>
  C6. For an attached Drawing, \<^verbatim>\<open>update\<close> returns normally, and a second
  \<^verbatim>\<open>update\<close> with the same arguments, on the state the first one left, returns the
  same and leaves the Drawing and the store, so every transform, as the first one did.
\<close>

theorem update_idempotent:
  assumes "attached d w"
  shows "fst (update x y (d, w)) = None \<and>
         update x y (snd (update x y (d, w))) = update x y (d, w)"
proof -
  from assms obtain a where a: "self_axes d = Some a"
    by (auto simp: attached_def)
  obtain x0 y0 vw vh where b: "viewLim_bounds (axes_store w a) = (x0, y0, vw, vh)"
    by (cases "viewLim_bounds (axes_store w a)") auto
  from assms obtain px where px: "(if x \<noteq> None then x else self_x d) = Some px"
    by (cases x) (auto simp: attached_def)
  from assms obtain py where py: "(if y \<noteq> None then y else self_y d) = Some py"
    by (cases y) (auto simp: attached_def)
  define t where "t = spec_transform (spec_horizontal_scale vw vh (spec_height d w)) px py a"
  define d2 where "d2 = d\<lparr>self_x := Some px, self_y := Some py\<rparr>"
  define w2 where "w2 = with_transform t (components d) w"
  have u1: "update x y (d, w) = (None, d2, w2)"
    using attached_update_spec [OF assms a b px py] by (simp add: t_def d2_def w2_def)
  have att2: "attached d2 w2"
    unfolding d2_def w2_def using assms by (rule attached_after_update)
  have a2: "self_axes d2 = Some a" using a by (simp add: d2_def)
  have b2: "viewLim_bounds (axes_store w2 a) = (x0, y0, vw, vh)"
    using b by (simp add: w2_def with_transform_simps)
  have px2: "(if x \<noteq> None then x else self_x d2) = Some px"
    using px by (cases x) (simp_all add: d2_def)
  have py2: "(if y \<noteq> None then y else self_y d2) = Some py"
    using py by (cases y) (simp_all add: d2_def)
  have h2: "spec_height d2 w2 = spec_height d w"
    by (rule spec_height_cong) (simp_all add: d2_def w2_def with_transform_simps)
  have "update x y (d2, w2) = (None, d2, with_transform t (components d) w2)"
    using attached_update_spec [OF att2 a2 b2 px2 py2]
    by (simp add: h2 t_def) (simp add: d2_def)
  then have u2: "update x y (d2, w2) = (None, d2, w2)"
    by (simp add: w2_def with_transform_idem)
  from u1 u2 show ?thesis by simp
qed

theorem update_idempotent_witness:
  "attached placed scene \<and>
   fst (update (Some 5) None (placed, scene)) = None \<and>
   update (Some 5) None (snd (update (Some 5) None (placed, scene))) =
     update (Some 5) None (placed, scene)"
  using update_idempotent [OF placed_attached, of "Some 5" None] placed_attached by simp

text \<open>
  C7. For an attached Drawing at the position (px, py), \<^verbatim>\<open>update()\<close> returns normally
  and leaves the Drawing as it was, so the stored position is still (px, py); every
  component's transform then is scale, translate by (px, py), canvas, with the scale
  of the formula at the view extents the axes have at the call.
\<close>

theorem update_without_arguments:
  assumes "attached d w" and "self_axes d = Some a"
    and "viewLim_bounds (axes_store w a) = (x0, y0, viewWidth, viewHeight)"
    and "self_x d = Some px" and "self_y d = Some py"
  shows "fst (update None None (d, w)) = None \<and>
         fst (snd (update None None (d, w))) = d \<and>
         self_x (fst (snd (update None None (d, w)))) = Some px \<and>
         self_y (fst (snd (update None None (d, w)))) = Some py \<and>
         (\<forall>c \<in> set (components d).
            patch_transform (patch_store (snd (snd (update None None (d, w)))) c) =
              Some (spec_transform
                      (spec_horizontal_scale viewWidth viewHeight (spec_height d w)) px py a))"
proof -
  have d: "d\<lparr>self_x := Some px, self_y := Some py\<rparr> = d"
    using assms(4,5) by (cases d) simp
  have "update None None (d, w) =
          (None, d,
           with_transform
             (spec_transform (spec_horizontal_scale viewWidth viewHeight (spec_height d w)) px py a)
             (components d) w)"
    using attached_update_spec [OF assms(1,2,3), of None px None py] assms(4,5) d by simp
  then show ?thesis
    using assms(4,5) by (simp add: with_transform_simps)
qed

theorem update_without_arguments_witness:
  "attached placed scene \<and> self_axes placed = Some 0 \<and>
   viewLim_bounds (axes_store scene 0) = (0, 0, 10, 10) \<and>
   self_x placed = Some 3 \<and> self_y placed = Some 4 \<and>
   fst (update None None (placed, scene)) = None \<and>
   fst (snd (update None None (placed, scene))) = placed \<and>
   patch_transform (patch_store (snd (snd (update None None (placed, scene)))) 0) =
     Some (Composite
             (Composite (Affine2D_scale (Finite (10 * (5 / 2) powr (3 / 4))) (Finite 1))
                (Affine2D_translate 3 4))
             (TransData 0)) \<and>
   patch_transform (patch_store (snd (snd (update None None (placed, scene)))) 2) =
     Some (Composite
             (Composite (Affine2D_scale (Finite (10 * (5 / 2) powr (3 / 4))) (Finite 1))
                (Affine2D_translate 3 4))
             (TransData 0))"
proof -
  have b: "viewLim_bounds (axes_store scene 0) = (0, 0, 10, 10)" by (simp add: scene_simps)
  note t = update_without_arguments [OF placed_attached placed_simps(2) b placed_simps(3,4)]
  from t placed_attached b show ?thesis
    by (simp add: placed_simps placed_spec_height scene_scale spec_transform_def)
qed

text \<open>
  C8. For an attached Drawing, \<^verbatim>\<open>update(x=v)\<close> returns normally; the Drawing differs
  from the one before in its stored x alone, which is v; the stored y is as before; and
  every component's transform is scale, translate by (v, py), canvas.
\<close>

theorem update_x_only:
  assumes "attached d w" and "self_axes d = Some a"
    and "viewLim_bounds (axes_store w a) = (x0, y0, viewWidth, viewHeight)"
    and "self_y d = Some py"
  shows "fst (update (Some v) None (d, w)) = None \<and>
         fst (snd (update (Some v) None (d, w))) = d\<lparr>self_x := Some v\<rparr> \<and>
         self_x (fst (snd (update (Some v) None (d, w)))) = Some v \<and>
         self_y (fst (snd (update (Some v) None (d, w)))) = self_y d \<and>
         (\<forall>c \<in> set (components d).
            patch_transform (patch_store (snd (snd (update (Some v) None (d, w)))) c) =
              Some (spec_transform
                      (spec_horizontal_scale viewWidth viewHeight (spec_height d w)) v py a))"
proof -
  have d: "d\<lparr>self_x := Some v, self_y := Some py\<rparr> = d\<lparr>self_x := Some v\<rparr>"
    using assms(4) by (cases d) simp
  have "update (Some v) None (d, w) =
          (None, d\<lparr>self_x := Some v\<rparr>,
           with_transform
             (spec_transform (spec_horizontal_scale viewWidth viewHeight (spec_height d w)) v py a)
             (components d) w)"
    using attached_update_spec [OF assms(1,2,3), of "Some v" v None py] assms(4) d by simp
  then show ?thesis
    by (simp add: with_transform_simps)
qed

theorem update_x_only_witness:
  "attached placed scene \<and> self_axes placed = Some 0 \<and>
   viewLim_bounds (axes_store scene 0) = (0, 0, 10, 10) \<and> self_y placed = Some 4 \<and>
   fst (update (Some 5) None (placed, scene)) = None \<and>
   fst (snd (update (Some 5) None (placed, scene))) =
     \<lparr>components = [0, 2], self_axes = Some 0, self_x = Some 5, self_y = Some 4\<rparr> \<and>
   patch_transform (patch_store (snd (snd (update (Some 5) None (placed, scene)))) 0) =
     Some (Composite
             (Composite (Affine2D_scale (Finite (10 * (5 / 2) powr (3 / 4))) (Finite 1))
                (Affine2D_translate 5 4))
             (TransData 0)) \<and>
   patch_transform (patch_store (snd (snd (update (Some 5) None (placed, scene)))) 2) =
     Some (Composite
             (Composite (Affine2D_scale (Finite (10 * (5 / 2) powr (3 / 4))) (Finite 1))
                (Affine2D_translate 5 4))
             (TransData 0))"
proof -
  have b: "viewLim_bounds (axes_store scene 0) = (0, 0, 10, 10)" by (simp add: scene_simps)
  have p: "placed\<lparr>self_x := Some 5\<rparr> =
      \<lparr>components = [0, 2], self_axes = Some 0, self_x = Some 5, self_y = Some 4\<rparr>"
    by (simp add: placed_def)
  note t = update_x_only [OF placed_attached placed_simps(2) b placed_simps(4), of 5]
  from t placed_attached b show ?thesis
    by (simp add: placed_simps placed_spec_height scene_scale spec_transform_def p)
qed

text \<open>
  C9, as stated, fails for a Drawing that is attached with its components on the canvas
  more often than in its component list: after \<^verbatim>\<open>applyTo\<close> has been called twice on
  the same axes, both calls returning, the Drawing is attached, \<^verbatim>\<open>remove()\<close> returns
  normally, and both components are still in the axes' list of patches.
\<close>

theorem remove_deregisters_counterexample:
  "fst (applyTo 0 3 4 (snd (applyTo 0 3 4 (Drawing [0, 2], scene)))) = None \<and>
   attached (fst attached_twice) (snd attached_twice) \<and>
   components (fst attached_twice) = [0, 2] \<and>
   self_axes (fst attached_twice) = Some 0 \<and>
   fst (remove attached_twice) = None \<and>
   axes_patches (axes_store (snd (snd (remove attached_twice))) 0) = [0, 2]"
proof -
  have r: "fst (applyTo 0 3 4 (snd (applyTo 0 3 4 (Drawing [0, 2], scene)))) = None"
    by (simp only: scene_applyTo_twice fst_conv)
  obtain w1 where e: "snd (applyTo 0 3 4 (Drawing [0, 2], scene)) = (placed, w1)"
    by (simp add: scene_applyTo)
  from r have "fst (applyTo 0 3 4 (placed, w1)) = None"
    by (simp only: e)
  then have "attached (fst (snd (applyTo 0 3 4 (placed, w1)))) (snd (snd (applyTo 0 3 4 (placed, w1))))"
    by (rule applyTo_attached)
  then have a: "attached (fst attached_twice) (snd attached_twice)"
    by (simp only: attached_twice_def e)
  have d: "fst attached_twice = placed"
    by (simp add: attached_twice_def scene_applyTo_twice)
  have m: "fst (remove attached_twice) = None"
    "axes_patches (axes_store (snd (snd (remove attached_twice))) 0) = [0, 2]"
    by (simp_all add: attached_twice_def scene_applyTo_twice remove_def placed_simps
        artist_remove_def added_def with_transform_def scene_simps)
  from r a d m show ?thesis
    by (simp add: placed_simps)
qed

text \<open>
  C9, amended. For an attached Drawing whose components are registered on its axes as
  one \<^verbatim>\<open>applyTo\<close> leaves them when they were not on the canvas before (each bound to
  the axes and standing in the axes' list as often as in the component list),
  \<^verbatim>\<open>remove()\<close> returns normally and afterwards no component of the Drawing is in the
  axes' list of patches.
\<close>

theorem remove_deregisters:
  assumes "registered d w a"
  shows "fst (remove (d, w)) = None \<and>
         (\<forall>c \<in> set (components d).
            c \<notin> set (axes_patches (axes_store (snd (snd (remove (d, w)))) a)))"
proof -
  from assms have m: "\<forall>c \<in> set (components d). remove_method (patch_store w c) = Some a"
    and n: "\<forall>c \<in> set (components d).
              count (mset (axes_patches (axes_store w a))) c = count (mset (components d)) c"
    by (simp_all add: registered_def)
  have sub: "mset (components d) \<subseteq># mset (axes_patches (axes_store w a))"
  proof (rule mset_subset_eqI)
    fix c
    show "count (mset (components d)) c \<le> count (mset (axes_patches (axes_store w a))) c"
    proof (cases "c \<in> set (components d)")
      case True
      with n show ?thesis by simp
    next
      case False
      then have "count (mset (components d)) c = 0"
        by (simp add: count_eq_zero_iff)
      then show ?thesis by linarith
    qed
  qed
  note l = remove_loop_spec [OF m sub]
  have r: "remove (d, w) = (fst (remove_loop (components d) w), d, snd (remove_loop (components d) w))"
    by (simp add: remove_def split: prod.splits)
  have "c \<notin> set (axes_patches (axes_store (snd (remove_loop (components d) w)) a))"
    if "c \<in> set (components d)" for c
  proof -
    have "count (mset (axes_patches (axes_store (snd (remove_loop (components d) w)) a))) c =
          count (mset (axes_patches (axes_store w a))) c - count (mset (components d)) c"
      using l by simp
    also have "\<dots> = 0" using n that by simp
    finally show ?thesis
      by (simp add: count_eq_zero_iff)
  qed
  with l show ?thesis
    by (simp add: r)
qed

theorem remove_deregisters_witness:
  "registered (fst (snd (applyTo 0 3 4 (Drawing [0, 2], scene))))
     (snd (snd (applyTo 0 3 4 (Drawing [0, 2], scene)))) 0 \<and>
   axes_patches (axes_store (snd (snd (applyTo 0 3 4 (Drawing [0, 2], scene)))) 0) = [0, 2] \<and>
   fst (remove (snd (applyTo 0 3 4 (Drawing [0, 2], scene)))) = None \<and>
   0 \<notin> set (axes_patches
             (axes_store (snd (snd (remove (snd (applyTo 0 3 4 (Drawing [0, 2], scene)))))) 0)) \<and>
   2 \<notin> set (axes_patches
             (axes_store (snd (snd (remove (snd (applyTo 0 3 4 (Drawing [0, 2], scene)))))) 0))"
proof -
  have n: "\<forall>c \<in> set (components (Drawing [0, 2])). c \<notin> set (axes_patches (axes_store scene 0))"
    by (simp add: scene_simps)
  have r: "fst (applyTo 0 3 4 (Drawing [0, 2], scene)) = None"
    by (simp only: scene_applyTo fst_conv)
  have reg: "registered (fst (snd (applyTo 0 3 4 (Drawing [0, 2], scene))))
     (snd (snd (applyTo 0 3 4 (Drawing [0, 2], scene)))) 0"
    using r n by (rule applyTo_registered)
  have l: "axes_patches (axes_store (snd (snd (applyTo 0 3 4 (Drawing [0, 2], scene)))) 0) = [0, 2]"
    by (simp add: scene_applyTo added_simps with_transform_simps scene_simps)
  have cs: "components (fst (snd (applyTo 0 3 4 (Drawing [0, 2], scene)))) = [0, 2]"
    by (simp add: scene_applyTo placed_simps)
  from remove_deregisters [OF reg] reg l show ?thesis
    by (simp add: cs)
qed

text \<open>
  C10. On a Drawing with no axes (never attached), \<^verbatim>\<open>update(x=v)\<close> raises
  \<^verbatim>\<open>AttributeError\<close> and leaves the Drawing with its stored x overwritten by v;
  likewise \<^verbatim>\<open>update(y=v)\<close> and the stored y. The store is untouched.
\<close>

theorem update_not_atomic:
  assumes "self_axes d = None"
  shows "update (Some v) None (d, w) = (Some AttributeError, d\<lparr>self_x := Some v\<rparr>, w) \<and>
         update None (Some v) (d, w) = (Some AttributeError, d\<lparr>self_y := Some v\<rparr>, w)"
  using assms by (simp add: update_def scaling_def axesToDataScale_def)

theorem update_not_atomic_witness:
  "self_axes (Drawing [0, 2]) = None \<and>
   update (Some 5) None (Drawing [0, 2], scene) =
     (Some AttributeError,
      \<lparr>components = [0, 2], self_axes = None, self_x = Some 5, self_y = None\<rparr>, scene) \<and>
   update None (Some 5) (Drawing [0, 2], scene) =
     (Some AttributeError,
      \<lparr>components = [0, 2], self_axes = None, self_x = None, self_y = Some 5\<rparr>, scene)"
proof -
  have n: "self_axes (Drawing [0, 2]) = None" by (simp add: Drawing_def)
  from update_not_atomic [OF n, of 5 scene] n show ?thesis
    by (simp add: Drawing_def)
qed

end
